theory Spec2Isabelle
  imports Complex_Main
begin

section \<open>Data of the navigation modal (src/src/App.tsx, src/src/types.ts)\<close>

text \<open>
  JavaScript numbers are modelled as reals: the arithmetic of the navigation logic is
  \<open>Math.hypot\<close>, one multiplication and comparisons with constants. Positions held in
  \<open>livePos\<close> are pairs \<open>[lat, lng]\<close>; OSRM maneuver locations are pairs \<open>[lng, lat]\<close>.
\<close>

type_synonym coord = "real \<times> real"

text \<open>
  \<open>Garage\<close> (types.ts): the navigation logic reads only \<open>lat\<close> and \<open>lng\<close>; the other fields
  (id, slug, name, address, ...) are presentation data and are left out.
\<close>

record Garage =
  lat :: real
  lng :: real

text \<open>\<open>OsrmStep\<close> and \<open>OsrmRoute\<close> (App.tsx, lines 576-587).\<close>

record osrm_maneuver =
  mtype :: string
  modifier :: "string option"
  location :: "real \<times> real"

record OsrmStep =
  distance :: real
  duration :: real
  name :: string
  maneuver :: osrm_maneuver

record osrm_leg =
  steps :: "OsrmStep list"

record OsrmRoute =
  route_distance :: real
  route_duration :: real
  geometry :: "(real \<times> real) list"
  legs :: "osrm_leg list"

text \<open>
  The JSON body of the route provider's answer: \<open>data.routes\<close> may be missing.
  The outcome of the request is either a parsed body, or an exception thrown by
  \<open>fetch\<close>, by \<open>res.json()\<close> or by the property access (the \<open>catch\<close> branch).
\<close>

record osrm_response =
  routes :: "OsrmRoute list option"

datatype fetch_outcome = Rejected | Resolved osrm_response

datatype nav_mode = Preview | Navigating

text \<open>An armed \<open>setTimeout\<close>: its handle, its delay in ms and the position its callback captured.\<close>

record timer =
  handle :: nat
  delay :: nat
  origin :: coord

text \<open>
  The component: its props, its \<open>useState\<close> cells and \<open>useRef\<close> cells, and the browser
  resources it owns (geolocation watches, armed timeouts, route requests in flight).
  \<open>fetchLog\<close> records every request issued, as (origin, destination).
\<close>

record session =
  garage :: Garage
  userLat :: "real option"
  userLng :: "real option"
  route :: "OsrmRoute option"
  routeLoading :: bool
  routeError :: "string option"
  navMode :: nav_mode
  livePos :: "coord option"
  stepIdx :: nat
  followUser :: bool
  rerouting :: bool
  watchRef :: "nat option"
  rerouteTimer :: "nat option"
  geolocation :: bool
  watches :: "nat list"
  nextWatch :: nat
  timers :: "timer list"
  nextTimer :: nat
  pending :: nat
  fetchLog :: "(coord \<times> coord) list"

datatype event =
    Position nat coord
  | TimerFire nat
  | FetchDone fetch_outcome
  | Start
  | Stop
  | Recenter

section \<open>Library functions of the platform\<close>

text \<open>\<open>Math.hypot(x, y)\<close>: the square root of the sum of the squares of its arguments.\<close>

definition hypot :: "real \<Rightarrow> real \<Rightarrow> real" where
  "hypot x y = sqrt (x\<^sup>2 + y\<^sup>2)"

text \<open>\<open>xs[i]\<close> on a JavaScript array: \<open>undefined\<close> (here \<open>None\<close>) out of range.\<close>

fun nth_opt :: "'a list \<Rightarrow> nat \<Rightarrow> 'a option" where
  "nth_opt [] i = None"
| "nth_opt (x # xs) 0 = Some x"
| "nth_opt (x # xs) (Suc i) = nth_opt xs i"

text \<open>\<open>clearTimeout(h)\<close>: the timeout with handle \<open>h\<close>, if still armed, will not fire.\<close>

definition clearTimeout :: "nat \<Rightarrow> timer list \<Rightarrow> timer list" where
  "clearTimeout h ts = filter (\<lambda>t. handle t \<noteq> h) ts"

text \<open>
  \<open>if (rerouteTimer.current) clearTimeout(rerouteTimer.current)\<close>: the test is
  JavaScript truthiness, so a \<open>null\<close> ref and a handle 0 both skip the call.
\<close>

definition clearIfTruthy :: "nat option \<Rightarrow> timer list \<Rightarrow> timer list" where
  "clearIfTruthy r ts =
     (case r of
        None \<Rightarrow> ts
      | Some h \<Rightarrow> if h \<noteq> 0 then clearTimeout h ts else ts)"

section \<open>The operations of NavigationModal\<close>

text \<open>\<open>route.legs[0]?.steps ?? []\<close>\<close>

definition routeSteps :: "OsrmRoute \<Rightarrow> OsrmStep list" where
  "routeSteps r = (case legs r of [] \<Rightarrow> [] | l # _ \<Rightarrow> steps l)"

text \<open>
  The three distances of the position effect (lines 701-702, 711-712, 718-719): the
  maneuver location is destructured as \<open>[lng, lat]\<close>.
\<close>

definition destDist :: "coord \<Rightarrow> Garage \<Rightarrow> real" where
  "destDist pos g = hypot (fst pos - lat g) (snd pos - lng g) * 111000"

definition maneuverDist :: "coord \<Rightarrow> OsrmStep \<Rightarrow> real" where
  "maneuverDist pos st =
     (case location (maneuver st) of
        (mLng, mLat) \<Rightarrow> hypot (fst pos - mLat) (snd pos - mLng) * 111000)"

text \<open>
  \<open>fetchRoute\<close> up to its \<open>await\<close> (lines 638-644): the loading flag is set, the error is
  cleared, and the request leaves for the provider.
\<close>

definition fetchRoute :: "session \<Rightarrow> coord \<Rightarrow> session" where
  "fetchRoute s frm =
     s\<lparr>routeLoading := True,
       routeError := None,
       pending := Suc (pending s),
       fetchLog := fetchLog s @ [(frm, (lat (garage s), lng (garage s)))]\<rparr>"

text \<open>
  \<open>fetchRoute\<close> after its \<open>await\<close> (lines 645-655): \<open>data.routes?.[0]\<close> is the first
  route when there is one; the \<open>finally\<close> block runs on every path.
\<close>

definition fetchDone :: "session \<Rightarrow> fetch_outcome \<Rightarrow> session" where
  "fetchDone s out =
     (let s1 = (case out of
                  Rejected \<Rightarrow> s\<lparr>routeError := Some ''Could not load route''\<rparr>
                | Resolved data \<Rightarrow>
                    (case routes data of
                       Some (r # _) \<Rightarrow> s\<lparr>route := Some r, stepIdx := 0\<rparr>
                     | _ \<Rightarrow> s\<lparr>routeError := Some ''No route found''\<rparr>))
      in s1\<lparr>routeLoading := False, rerouting := False, pending := pending s - 1\<rparr>)"

text \<open>\<open>stopWatch\<close> (lines 666-672). The timer ref keeps its (now stale) handle.\<close>

definition stopWatch :: "session \<Rightarrow> session" where
  "stopWatch s =
     (let s1 = (case watchRef s of
                  None \<Rightarrow> s
                | Some w \<Rightarrow> s\<lparr>watches := removeAll w (watches s), watchRef := None\<rparr>)
      in s1\<lparr>timers := clearIfTruthy (rerouteTimer s1) (timers s1)\<rparr>)"

text \<open>
  \<open>startNavigation\<close> (lines 674-686): \<open>watchPosition\<close> returns a fresh watch id, which
  overwrites the ref.
\<close>

definition startNavigation :: "session \<Rightarrow> session" where
  "startNavigation s =
     (let s1 = s\<lparr>navMode := Navigating, followUser := True\<rparr>
      in if \<not> geolocation s then s1
         else s1\<lparr>watchRef := Some (nextWatch s),
                 watches := watches s @ [nextWatch s],
                 nextWatch := Suc (nextWatch s)\<rparr>)"

text \<open>\<open>stopNavigation\<close> (lines 688-692).\<close>

definition stopNavigation :: "session \<Rightarrow> session" where
  "stopNavigation s = (stopWatch s)\<lparr>navMode := Preview, followUser := False\<rparr>"

text \<open>\<open>onRecenter\<close> (line 840).\<close>

definition recenter :: "session \<Rightarrow> session" where
  "recenter s = s\<lparr>followUser := True\<rparr>"

text \<open>
  The position effect (lines 697-729), in three parts. All three read \<open>stepIdx\<close>,
  \<open>rerouting\<close> and \<open>livePos\<close> of the render that scheduled the effect, passed here as
  \<open>i\<close>, the state \<open>s\<close> and \<open>pos\<close>; the setters take effect afterwards.
\<close>

text \<open>Lines 709-714: \<open>setStepIdx((i) => i + 1)\<close> when the next maneuver is within 35 m.\<close>

definition advanceStep :: "OsrmStep list \<Rightarrow> nat \<Rightarrow> coord \<Rightarrow> session \<Rightarrow> session" where
  "advanceStep sts i pos s =
     (case nth_opt sts (i + 1) of
        None \<Rightarrow> s
      | Some nextStep \<Rightarrow>
          if maneuverDist pos nextStep < 35 then s\<lparr>stepIdx := stepIdx s + 1\<rparr> else s)"

text \<open>Lines 721-725: the flag is set, the old timeout cleared, a new one armed for 1500 ms.\<close>

definition armReroute :: "coord \<Rightarrow> session \<Rightarrow> session" where
  "armReroute pos s =
     s\<lparr>rerouting := True,
       timers := clearIfTruthy (rerouteTimer s) (timers s)
                 @ [\<lparr>handle = Suc (nextTimer s), delay = 1500, origin = pos\<rparr>],
       rerouteTimer := Some (Suc (nextTimer s)),
       nextTimer := Suc (nextTimer s)\<rparr>"

text \<open>Lines 716-727: the off-route check on the current step.\<close>

definition checkReroute :: "OsrmStep list \<Rightarrow> nat \<Rightarrow> bool \<Rightarrow> coord \<Rightarrow> session \<Rightarrow> session" where
  "checkReroute sts i rr pos s =
     (case nth_opt sts i of
        None \<Rightarrow> s
      | Some curStep \<Rightarrow>
          if rr then s
          else if maneuverDist pos curStep > 120 then armReroute pos s else s)"

definition positionEffect :: "session \<Rightarrow> session" where
  "positionEffect s =
     (case livePos s of
        None \<Rightarrow> s
      | Some pos \<Rightarrow>
          (case route s of
             None \<Rightarrow> s
           | Some r \<Rightarrow>
               if navMode s \<noteq> Navigating then s
               else if destDist pos (garage s) < 25
                 then (stopWatch s)\<lparr>navMode := Preview\<rparr>
                 else checkReroute (routeSteps r) (stepIdx s) (rerouting s) pos
                        (advanceStep (routeSteps r) (stepIdx s) pos s)))"

text \<open>
  The \<open>watchPosition\<close> callback (lines 679-682): \<open>setLivePos(newPos)\<close> with a fresh array,
  so the component renders again and the effect on \<open>[livePos]\<close> runs.
\<close>

definition onPosition :: "session \<Rightarrow> coord \<Rightarrow> session" where
  "onPosition s newPos = positionEffect (s\<lparr>livePos := Some newPos\<rparr>)"

text \<open>The timeout callback (lines 723-725): \<open>fetchRoute\<close> from the captured position.\<close>

definition timerFire :: "session \<Rightarrow> timer \<Rightarrow> session" where
  "timerFire s t = fetchRoute (s\<lparr>timers := clearTimeout (handle t) (timers s)\<rparr>) (origin t)"

text \<open>
  The component as mounted (lines 618-634 and the effect of lines 660-663): the initial
  cells, and the first request when the caller passed a position.
\<close>

definition hasInitLoc :: "session \<Rightarrow> bool" where
  "hasInitLoc s = (userLat s \<noteq> None \<and> userLng s \<noteq> None)"

definition initLoc :: "real option \<Rightarrow> real option \<Rightarrow> coord option" where
  "initLoc la lo =
     (case la of
        None \<Rightarrow> None
      | Some x \<Rightarrow> (case lo of None \<Rightarrow> None | Some y \<Rightarrow> Some (x, y)))"

definition mount :: "Garage \<Rightarrow> real option \<Rightarrow> real option \<Rightarrow> bool \<Rightarrow> session" where
  "mount g la lo geo =
     (let s = \<lparr>garage = g, userLat = la, userLng = lo,
                route = None, routeLoading = False, routeError = None,
                navMode = Preview, livePos = initLoc la lo, stepIdx = 0,
                followUser = True, rerouting = False,
                watchRef = None, rerouteTimer = None,
                geolocation = geo, watches = [], nextWatch = 0,
                timers = [], nextTimer = 0, pending = 0, fetchLog = []\<rparr>
      in case initLoc la lo of None \<Rightarrow> s | Some p \<Rightarrow> fetchRoute s p)"

text \<open>
  One event of the serialized queue. An event the environment cannot deliver yields
  \<open>None\<close>: a position only from a live watch, a timeout only while armed, a completion
  only for a request in flight, a click only on a control that is rendered and enabled
  (Start: lines 879-887; Stop: lines 896-907; recenter: lines 836-842).
  Closing the modal unmounts the component (its cleanup, line 694, is \<open>stopWatch\<close>) and
  ends the session; it is not an event of a session.
\<close>

definition userMarkerPos :: "session \<Rightarrow> coord option" where
  "userMarkerPos s =
     (case livePos s of Some p \<Rightarrow> Some p | None \<Rightarrow> initLoc (userLat s) (userLng s))"

fun handleEvent :: "session \<Rightarrow> event \<Rightarrow> session option" where
  "handleEvent s (Position w p) =
     (if w \<in> set (watches s) then Some (onPosition s p) else None)"
| "handleEvent s (TimerFire h) =
     (case find (\<lambda>t. handle t = h) (timers s) of
        None \<Rightarrow> None
      | Some t \<Rightarrow> Some (timerFire s t))"
| "handleEvent s (FetchDone out) =
     (if pending s > 0 then Some (fetchDone s out) else None)"
| "handleEvent s Start =
     (if navMode s = Preview \<and> route s \<noteq> None \<and> hasInitLoc s
      then Some (startNavigation s) else None)"
| "handleEvent s Stop =
     (if navMode s = Navigating \<and> route s \<noteq> None
      then Some (stopNavigation s) else None)"
| "handleEvent s Recenter =
     (if userMarkerPos s \<noteq> None then Some (recenter s) else None)"

fun run :: "session \<Rightarrow> event list \<Rightarrow> session option" where
  "run s [] = Some s"
| "run s (e # es) = (case handleEvent s e of None \<Rightarrow> None | Some s' \<Rightarrow> run s' es)"

inductive reachable :: "session \<Rightarrow> bool" where
  mounted: "reachable (mount g la lo geo)"
| event: "reachable s \<Longrightarrow> handleEvent s e = Some s' \<Longrightarrow> reachable s'"

section \<open>Concrete sessions\<close>

text \<open>
  A trip along the equator: the garage lies 0.003 degrees east of the start, the route has
  four maneuvers at longitudes 0, 0.001, 0.0011 and 0.003. \<open>demoNav\<close> is the session
  after the first route arrived and Start was pressed; \<open>demoArmed\<close> after a fix 222 m
  west of the first maneuver; \<open>demoInFlight\<close> after the reroute timeout fired.
\<close>

definition stepAt :: "string \<Rightarrow> real \<Rightarrow> OsrmStep" where
  "stepAt k x =
     \<lparr>distance = 0, duration = 0, name = [],
      maneuver = \<lparr>mtype = k, modifier = None, location = (x, 0)\<rparr>\<rparr>"

definition demoRoute :: OsrmRoute where
  "demoRoute =
     \<lparr>route_distance = 333, route_duration = 60, geometry = [],
      legs = [\<lparr>steps = [stepAt ''depart'' 0, stepAt ''turn'' (1 / 1000),
                       stepAt ''turn'' (11 / 10000), stepAt ''arrive'' (3 / 1000)]\<rparr>]\<rparr>"

definition demoGarage :: Garage where
  "demoGarage = \<lparr>lat = 0, lng = 3 / 1000\<rparr>"

definition demoMounted :: session where
  "demoMounted = mount demoGarage (Some 0) (Some 0) True"

definition demoNav :: session where
  "demoNav = startNavigation (fetchDone demoMounted (Resolved \<lparr>routes = Some [demoRoute]\<rparr>))"

definition demoTimer :: timer where
  "demoTimer = \<lparr>handle = 1, delay = 1500, origin = (0, - (2 / 1000))\<rparr>"

definition demoArmed :: session where
  "demoArmed = onPosition demoNav (0, - (2 / 1000))"

definition demoReroute :: OsrmRoute where
  "demoReroute =
     \<lparr>route_distance = 555, route_duration = 90, geometry = [],
      legs = [\<lparr>steps = [stepAt ''depart'' (- (2 / 1000)), stepAt ''arrive'' (3 / 1000)]\<rparr>]\<rparr>"

definition demoInFlight :: session where
  "demoInFlight = timerFire demoArmed demoTimer"

section \<open>Notions of the specification\<close>

text \<open>
  The specification names three modes; the component's \<open>navMode\<close> has two, which
  \<open>modeOf\<close> maps to the modes of the same name.
\<close>

datatype spec_mode = SpecPreview | SpecNavigating | SpecArrived

definition modeOf :: "nav_mode \<Rightarrow> spec_mode" where
  "modeOf m = (case m of Preview \<Rightarrow> SpecPreview | Navigating \<Rightarrow> SpecNavigating)"

text \<open>
  The distance of the specification: the planar approximation on (lat, lng) pairs, with
  111000 m per degree on both axes.
\<close>

definition distanceMeters :: "coord \<Rightarrow> coord \<Rightarrow> real" where
  "distanceMeters a b = sqrt ((fst a - fst b)\<^sup>2 + (snd a - snd b)\<^sup>2) * 111000"

definition maneuverCoord :: "OsrmStep \<Rightarrow> coord" where
  "maneuverCoord st = (snd (location (maneuver st)), fst (location (maneuver st)))"

text \<open>A route whose only leg has no steps.\<close>

definition emptyRoute :: OsrmRoute where
  "emptyRoute = \<lparr>route_distance = 0, route_duration = 0, geometry = [], legs = [\<lparr>steps = []\<rparr>]\<rparr>"

text \<open>The events that are callbacks of the watch or of a timeout.\<close>

fun isCallback :: "event \<Rightarrow> bool" where
  "isCallback (Position w p) = True"
| "isCallback (TimerFire h) = True"
| "isCallback e = False"

text \<open>
  A fix that, in session \<open>s\<close>, does not trigger arrival and is more than 120 m from
  the maneuver of the current step; and a list of fixes that are so one after the other.
\<close>

definition offRouteFix :: "session \<Rightarrow> coord \<Rightarrow> bool" where
  "offRouteFix s p =
     (navMode s = Navigating \<and>
      (case route s of
         None \<Rightarrow> False
       | Some r \<Rightarrow>
           25 \<le> destDist p (garage s) \<and>
           (case nth_opt (routeSteps r) (stepIdx s) of
              None \<Rightarrow> False
            | Some curStep \<Rightarrow> maneuverDist p curStep > 120)))"

fun offRouteFixes :: "session \<Rightarrow> coord list \<Rightarrow> bool" where
  "offRouteFixes s [] = True"
| "offRouteFixes s (p # ps) = (offRouteFix s p \<and> offRouteFixes (onPosition s p) ps)"

section \<open>Invariant of the reachable sessions\<close>

text \<open>
  Every armed timeout and every live watch is the one its ref holds; in preview nothing
  is armed or watched; navigation runs only with a route; an armed timeout means the
  flag is set and no request is in flight; at most one request is in flight, and then
  either the flag is set or it is the first request of the session.
\<close>

definition owned :: "session \<Rightarrow> bool" where
  "owned s \<longleftrightarrow>
     (\<forall>t \<in> set (timers s). rerouteTimer s = Some (handle t) \<and> handle t \<noteq> 0)
   \<and> (\<forall>w \<in> set (watches s). watchRef s = Some w)
   \<and> (navMode s = Preview \<longrightarrow> watches s = [] \<and> timers s = [])
   \<and> (navMode s = Navigating \<longrightarrow> route s \<noteq> None)
   \<and> (timers s \<noteq> [] \<longrightarrow> pending s = 0 \<and> rerouting s)
   \<and> (pending s > 0 \<longrightarrow> pending s = 1 \<and> (rerouting s \<or> route s = None))"

section \<open>The invariant holds in every reachable session\<close>

lemma clearIfTruthy_owned:
  "\<forall>t \<in> set ts. r = Some (handle t) \<and> handle t \<noteq> 0 \<Longrightarrow> clearIfTruthy r ts = []"
  by (cases ts) (auto simp: clearIfTruthy_def clearTimeout_def filter_empty_conv split: option.splits)

lemma removeAll_only: "\<forall>x \<in> set xs. r = Some x \<Longrightarrow> r = Some w \<Longrightarrow> removeAll w xs = []"
  by (induction xs) auto

lemma owned_mount: "owned (mount g la lo geo)"
  by (auto simp: owned_def mount_def fetchRoute_def Let_def split: option.splits)

lemma owned_fetchDone: "owned s \<Longrightarrow> pending s > 0 \<Longrightarrow> owned (fetchDone s out)"
  by (auto simp: owned_def fetchDone_def Let_def split: fetch_outcome.splits option.splits list.splits)

lemma owned_start: "owned s \<Longrightarrow> navMode s = Preview \<Longrightarrow> route s \<noteq> None \<Longrightarrow> owned (startNavigation s)"
  by (auto simp: owned_def startNavigation_def Let_def)

lemma stopWatch_owned_timers: "owned s \<Longrightarrow> timers (stopWatch s) = []"
  by (auto simp: owned_def stopWatch_def Let_def clearIfTruthy_owned split: option.splits)

lemma stopWatch_owned_watches: "owned s \<Longrightarrow> watches (stopWatch s) = []"
  by (cases "watchRef s")
    (auto simp: owned_def stopWatch_def Let_def removeAll_only [of "watches s" "watchRef s"])

lemma stopWatch_frame:
  "route (stopWatch s) = route s" "pending (stopWatch s) = pending s"
  "rerouting (stopWatch s) = rerouting s" "navMode (stopWatch s) = navMode s"
  "watchRef (stopWatch s) = None" "rerouteTimer (stopWatch s) = rerouteTimer s"
  "stepIdx (stopWatch s) = stepIdx s" "followUser (stopWatch s) = followUser s"
  "fetchLog (stopWatch s) = fetchLog s" "livePos (stopWatch s) = livePos s"
  by (auto simp: stopWatch_def Let_def split: option.splits)

lemma owned_stop: "owned s \<Longrightarrow> owned (stopNavigation s)"
  using stopWatch_owned_timers[of s] stopWatch_owned_watches[of s]
  by (simp add: owned_def stopNavigation_def stopWatch_frame)

lemma owned_recenter: "owned s \<Longrightarrow> owned (recenter s)"
  by (simp add: owned_def recenter_def)

lemma owned_timerFire:
  assumes "owned s" "find (\<lambda>t. handle t = h) (timers s) = Some t"
  shows "owned (timerFire s t)"
proof -
  from assms(2) have tin: "t \<in> set (timers s)"
    by (auto simp: find_Some_iff in_set_conv_nth)
  with assms(1) have rt: "rerouteTimer s = Some (handle t)" and p0: "pending s = 0" and rr: "rerouting s"
    by (auto simp: owned_def)
  from assms(1) rt have "clearTimeout (handle t) (timers s) = []"
    by (auto simp: owned_def clearTimeout_def filter_empty_conv)
  with assms(1) p0 rr show ?thesis
    by (auto simp: owned_def timerFire_def fetchRoute_def)
qed

lemma owned_advanceStep [simp]: "owned (advanceStep sts i pos s) = owned s"
  by (auto simp: advanceStep_def owned_def split: option.splits)

lemma advanceStep_frame [simp]:
  "rerouting (advanceStep sts i pos s) = rerouting s"
  "route (advanceStep sts i pos s) = route s"
  "timers (advanceStep sts i pos s) = timers s"
  "pending (advanceStep sts i pos s) = pending s"
  "navMode (advanceStep sts i pos s) = navMode s"
  by (auto simp: advanceStep_def split: option.splits)

lemma owned_armReroute:
  "owned s \<Longrightarrow> \<not> rerouting s \<Longrightarrow> navMode s = Navigating \<Longrightarrow> owned (armReroute pos s)"
  by (auto simp: owned_def armReroute_def clearIfTruthy_def clearTimeout_def)

lemma owned_checkReroute:
  "owned s \<Longrightarrow> rr = rerouting s \<Longrightarrow> navMode s = Navigating \<Longrightarrow> owned (checkReroute sts i rr pos s)"
  by (auto simp: checkReroute_def owned_armReroute split: option.splits)

lemma owned_livePos [simp]: "owned (s\<lparr>livePos := p\<rparr>) = owned s"
  by (simp add: owned_def)

lemma owned_positionEffect: "owned s \<Longrightarrow> owned (positionEffect s)"
  using stopWatch_owned_timers[of s] stopWatch_owned_watches[of s]
  by (auto simp: positionEffect_def owned_checkReroute split: option.splits)
    (simp add: owned_def stopWatch_frame)

lemma owned_onPosition: "owned s \<Longrightarrow> owned (onPosition s p)"
  by (simp add: onPosition_def owned_positionEffect)

lemma owned_handleEvent: "owned s \<Longrightarrow> handleEvent s e = Some s' \<Longrightarrow> owned s'"
  by (cases e)
    (auto simp: owned_onPosition owned_timerFire owned_fetchDone owned_start owned_stop owned_recenter
      split: if_splits option.splits)

lemma reachable_owned: "reachable s \<Longrightarrow> owned s"
  by (induction rule: reachable.induct) (auto simp: owned_mount owned_handleEvent)

section \<open>What each operation leaves unchanged\<close>

lemma stopWatch_props [simp]:
  "garage (stopWatch s) = garage s" "userLat (stopWatch s) = userLat s"
  "userLng (stopWatch s) = userLng s" "geolocation (stopWatch s) = geolocation s"
  "nextTimer (stopWatch s) = nextTimer s" "nextWatch (stopWatch s) = nextWatch s"
  "routeError (stopWatch s) = routeError s" "routeLoading (stopWatch s) = routeLoading s"
  by (auto simp: stopWatch_def Let_def split: option.splits)

lemma stopNavigation_alt:
  "stopNavigation s =
     s\<lparr>watches := watches (stopWatch s), watchRef := None,
       timers := timers (stopWatch s), navMode := Preview, followUser := False\<rparr>"
  by (cases "watchRef s") (simp_all add: stopNavigation_def stopWatch_def)

lemma stopWatch_cong:
  "watchRef s' = watchRef s \<Longrightarrow> watches s' = watches s \<Longrightarrow> rerouteTimer s' = rerouteTimer s
   \<Longrightarrow> timers s' = timers s
   \<Longrightarrow> watches (stopWatch s') = watches (stopWatch s) \<and> timers (stopWatch s') = timers (stopWatch s)"
  by (cases "watchRef s") (simp_all add: stopWatch_def)

lemma fetchDone_alt:
  "fetchDone s out =
     s\<lparr>route := route (fetchDone s out), stepIdx := stepIdx (fetchDone s out),
       routeError := routeError (fetchDone s out),
       routeLoading := False, rerouting := False, pending := pending s - 1\<rparr>"
proof (cases out)
  case Rejected
  then show ?thesis by (simp add: fetchDone_def)
next
  case (Resolved d)
  show ?thesis
  proof (cases "routes d")
    case None
    with Resolved show ?thesis by (simp add: fetchDone_def)
  next
    case (Some rs)
    with Resolved show ?thesis by (cases rs) (simp_all add: fetchDone_def)
  qed
qed

lemma fetchDone_cong:
  assumes "route s' = route s" "stepIdx s' = stepIdx s" "routeError s' = routeError s"
  shows "route (fetchDone s' out) = route (fetchDone s out)
       \<and> stepIdx (fetchDone s' out) = stepIdx (fetchDone s out)
       \<and> routeError (fetchDone s' out) = routeError (fetchDone s out)"
proof (cases out)
  case Rejected
  with assms show ?thesis by (simp add: fetchDone_def)
next
  case (Resolved d)
  show ?thesis
  proof (cases "routes d")
    case None
    with Resolved assms show ?thesis by (simp add: fetchDone_def)
  next
    case (Some rs)
    with Resolved assms show ?thesis by (cases rs) (simp_all add: fetchDone_def)
  qed
qed

lemma fetchDone_frame [simp]:
  "watchRef (fetchDone s out) = watchRef s" "watches (fetchDone s out) = watches s"
  "rerouteTimer (fetchDone s out) = rerouteTimer s" "timers (fetchDone s out) = timers s"
  by (subst fetchDone_alt, simp)+

lemma fetchDone_stopNavigation:
  "fetchDone (stopNavigation s) out = stopNavigation (fetchDone s out)"
proof -
  define R I E where "R = route (fetchDone s out)" and "I = stepIdx (fetchDone s out)"
    and "E = routeError (fetchDone s out)"
  define W T where "W = watches (stopWatch s)" and "T = timers (stopWatch s)"
  have a: "route (fetchDone (stopNavigation s) out) = R
       \<and> stepIdx (fetchDone (stopNavigation s) out) = I
       \<and> routeError (fetchDone (stopNavigation s) out) = E"
    unfolding R_def I_def E_def
    by (rule fetchDone_cong) (simp_all add: stopNavigation_def stopWatch_frame)
  have b: "watches (stopWatch (fetchDone s out)) = W \<and> timers (stopWatch (fetchDone s out)) = T"
    unfolding W_def T_def by (rule stopWatch_cong) simp_all
  have fd: "fetchDone s out =
        s\<lparr>route := R, stepIdx := I, routeError := E,
          routeLoading := False, rerouting := False, pending := pending s - 1\<rparr>"
    unfolding R_def I_def E_def by (rule fetchDone_alt)
  have fd': "fetchDone (stopNavigation s) out =
        (stopNavigation s)\<lparr>route := R, stepIdx := I, routeError := E,
          routeLoading := False, rerouting := False, pending := pending (stopNavigation s) - 1\<rparr>"
    using fetchDone_alt [of "stopNavigation s" out] a by simp
  have sn: "stopNavigation s =
        s\<lparr>watches := W, watchRef := None, timers := T, navMode := Preview, followUser := False\<rparr>"
    unfolding W_def T_def by (rule stopNavigation_alt)
  have sn': "stopNavigation (fetchDone s out) =
        (fetchDone s out)\<lparr>watches := W, watchRef := None, timers := T, navMode := Preview,
          followUser := False\<rparr>"
    using stopNavigation_alt [of "fetchDone s out"] b by simp
  show ?thesis
    unfolding fd' sn' unfolding fd sn by simp
qed

lemma clearIfTruthy_Nil [simp]: "clearIfTruthy r [] = []"
  by (cases r) (simp_all add: clearIfTruthy_def clearTimeout_def)

lemma stopWatch_quiet:
  "watches s = [] \<Longrightarrow> watches (stopWatch s) = []"
  "timers s = [] \<Longrightarrow> timers (stopWatch s) = []"
  by (cases "watchRef s"; simp add: stopWatch_def)+

lemma advanceStep_more [simp]:
  "fetchLog (advanceStep sts i pos s) = fetchLog s"
  "garage (advanceStep sts i pos s) = garage s"
  "rerouteTimer (advanceStep sts i pos s) = rerouteTimer s"
  "nextTimer (advanceStep sts i pos s) = nextTimer s"
  "watches (advanceStep sts i pos s) = watches s"
  by (cases "nth_opt sts (i + 1)"; simp add: advanceStep_def)+

lemma checkReroute_True [simp]: "checkReroute sts i True p s = s"
  by (cases "nth_opt sts i") (simp_all add: checkReroute_def)

lemma armReroute_frame [simp]:
  "rerouting (armReroute p s)" "fetchLog (armReroute p s) = fetchLog s"
  "garage (armReroute p s) = garage s"
  "timers (armReroute p s) =
     clearIfTruthy (rerouteTimer s) (timers s)
     @ [\<lparr>handle = Suc (nextTimer s), delay = 1500, origin = p\<rparr>]"
  by (simp_all add: armReroute_def)

lemma checkReroute_arm:
  "nth_opt sts i = Some cur \<Longrightarrow> maneuverDist p cur > 120
   \<Longrightarrow> checkReroute sts i False p s = armReroute p s"
  by (simp add: checkReroute_def)

lemma timerFire_frame [simp]:
  "rerouting (timerFire s t) = rerouting s"
  "timers (timerFire s t) = clearTimeout (handle t) (timers s)"
  "fetchLog (timerFire s t) = fetchLog s @ [(origin t, (lat (garage s), lng (garage s)))]"
  by (simp_all add: timerFire_def fetchRoute_def)

lemma followUser_advanceStep [simp]: "followUser (advanceStep sts i p s) = followUser s"
  by (cases "nth_opt sts (i + 1)") (simp_all add: advanceStep_def)

lemma followUser_armReroute [simp]: "followUser (armReroute p s) = followUser s"
  by (simp add: armReroute_def)

lemma followUser_checkReroute [simp]: "followUser (checkReroute sts i rr p s) = followUser s"
  by (cases "nth_opt sts i") (simp_all add: checkReroute_def)

lemma followUser_positionEffect: "followUser (positionEffect s) = followUser s"
proof (cases "livePos s")
  case None
  then show ?thesis by (simp add: positionEffect_def)
next
  case (Some pos)
  then show ?thesis
    by (cases "route s") (simp_all add: positionEffect_def stopWatch_frame)
qed

lemma followUser_onPosition [simp]: "followUser (onPosition s p) = followUser s"
  by (simp add: onPosition_def followUser_positionEffect)

lemma followUser_timerFire [simp]: "followUser (timerFire s t) = followUser s"
  by (simp add: timerFire_def fetchRoute_def)

lemma followUser_fetchDone [simp]: "followUser (fetchDone s out) = followUser s"
  by (subst fetchDone_alt) simp

lemma followUser_startNavigation [simp]: "followUser (startNavigation s)"
  by (simp add: startNavigation_def Let_def)

lemma followUser_stopNavigation [simp]: "\<not> followUser (stopNavigation s)"
  by (simp add: stopNavigation_def)

lemma followUser_recenter [simp]: "followUser (recenter s)"
  by (simp add: recenter_def)

section \<open>The concrete sessions, evaluated\<close>

lemma hypot_zero_left [simp]: "hypot 0 y = \<bar>y\<bar>"
  by (simp add: hypot_def)

lemma hypot_zero_right [simp]: "hypot x 0 = \<bar>x\<bar>"
  by (simp add: hypot_def)

lemma demoMounted_eq:
  "demoMounted =
     \<lparr>garage = demoGarage, userLat = Some 0, userLng = Some 0,
      route = None, routeLoading = True, routeError = None,
      navMode = Preview, livePos = Some (0, 0), stepIdx = 0,
      followUser = True, rerouting = False,
      watchRef = None, rerouteTimer = None,
      geolocation = True, watches = [], nextWatch = 0,
      timers = [], nextTimer = 0, pending = 1,
      fetchLog = [((0, 0), (0, 3 / 1000))]\<rparr>"
  by (simp add: demoMounted_def mount_def initLoc_def fetchRoute_def demoGarage_def)

lemma demoNav_eq:
  "demoNav =
     \<lparr>garage = demoGarage, userLat = Some 0, userLng = Some 0,
      route = Some demoRoute, routeLoading = False, routeError = None,
      navMode = Navigating, livePos = Some (0, 0), stepIdx = 0,
      followUser = True, rerouting = False,
      watchRef = Some 0, rerouteTimer = None,
      geolocation = True, watches = [0], nextWatch = 1,
      timers = [], nextTimer = 0, pending = 0,
      fetchLog = [((0, 0), (0, 3 / 1000))]\<rparr>"
  by (simp add: demoNav_def demoMounted_eq fetchDone_def startNavigation_def)

lemma demoSteps:
  "routeSteps demoRoute =
     [stepAt ''depart'' 0, stepAt ''turn'' (1 / 1000),
      stepAt ''turn'' (11 / 10000), stepAt ''arrive'' (3 / 1000)]"
  by (simp add: routeSteps_def demoRoute_def)

lemma maneuverDist_stepAt [simp]: "maneuverDist (0, y) (stepAt k x) = \<bar>y - x\<bar> * 111000"
  by (simp add: maneuverDist_def stepAt_def)

lemma destDist_demo [simp]: "destDist (0, y) demoGarage = \<bar>y - 3 / 1000\<bar> * 111000"
  by (simp add: destDist_def demoGarage_def)

lemma demoArmed_eq:
  "demoArmed =
     \<lparr>garage = demoGarage, userLat = Some 0, userLng = Some 0,
      route = Some demoRoute, routeLoading = False, routeError = None,
      navMode = Navigating, livePos = Some (0, - (2 / 1000)), stepIdx = 0,
      followUser = True, rerouting = True,
      watchRef = Some 0, rerouteTimer = Some 1,
      geolocation = True, watches = [0], nextWatch = 1,
      timers = [demoTimer], nextTimer = 1, pending = 0,
      fetchLog = [((0, 0), (0, 3 / 1000))]\<rparr>"
  by (simp add: demoArmed_def demoNav_eq onPosition_def positionEffect_def demoSteps
      advanceStep_def checkReroute_def armReroute_def clearIfTruthy_def demoTimer_def)

lemma demoInFlight_eq:
  "demoInFlight =
     \<lparr>garage = demoGarage, userLat = Some 0, userLng = Some 0,
      route = Some demoRoute, routeLoading = True, routeError = None,
      navMode = Navigating, livePos = Some (0, - (2 / 1000)), stepIdx = 0,
      followUser = True, rerouting = True,
      watchRef = Some 0, rerouteTimer = Some 1,
      geolocation = True, watches = [0], nextWatch = 1,
      timers = [], nextTimer = 1, pending = 1,
      fetchLog = [((0, 0), (0, 3 / 1000)), ((0, - (2 / 1000)), (0, 3 / 1000))]\<rparr>"
  by (simp add: demoInFlight_def demoArmed_eq timerFire_def fetchRoute_def clearTimeout_def
      demoTimer_def demoGarage_def)

lemma reachable_demoMounted: "reachable demoMounted"
  unfolding demoMounted_def by (rule reachable.mounted)

lemma reachable_demoNav: "reachable demoNav"
proof -
  have "handleEvent demoMounted (FetchDone (Resolved \<lparr>routes = Some [demoRoute]\<rparr>))
        = Some (fetchDone demoMounted (Resolved \<lparr>routes = Some [demoRoute]\<rparr>))"
    by (simp add: demoMounted_eq)
  from reachable.event [OF reachable_demoMounted this]
  have r1: "reachable (fetchDone demoMounted (Resolved \<lparr>routes = Some [demoRoute]\<rparr>))" .
  have "handleEvent (fetchDone demoMounted (Resolved \<lparr>routes = Some [demoRoute]\<rparr>)) Start
        = Some demoNav"
    by (simp add: demoNav_def demoMounted_eq fetchDone_def hasInitLoc_def)
  from reachable.event [OF r1 this] show ?thesis .
qed

lemma reachable_demoArmed: "reachable demoArmed"
proof -
  have "handleEvent demoNav (Position 0 (0, - (2 / 1000))) = Some demoArmed"
    by (simp add: demoArmed_def) (simp add: demoNav_eq)
  from reachable.event [OF reachable_demoNav this] show ?thesis .
qed

lemma reachable_demoInFlight: "reachable demoInFlight"
proof -
  have "handleEvent demoArmed (TimerFire 1) = Some demoInFlight"
    by (simp add: demoInFlight_def) (simp add: demoArmed_eq demoTimer_def)
  from reachable.event [OF reachable_demoArmed this] show ?thesis .
qed

lemma demoWalk:
  "onPosition demoNav (0, - (2 / 1000)) = demoArmed"
  "onPosition demoArmed (0, - (21 / 10000)) = demoArmed\<lparr>livePos := Some (0, - (21 / 10000))\<rparr>"
  "onPosition (demoArmed\<lparr>livePos := Some (0, - (21 / 10000))\<rparr>) (0, - (22 / 10000))
     = demoArmed\<lparr>livePos := Some (0, - (22 / 10000))\<rparr>"
  "timerFire (demoArmed\<lparr>livePos := Some (0, - (22 / 10000))\<rparr>) demoTimer
     = demoInFlight\<lparr>livePos := Some (0, - (22 / 10000))\<rparr>"
  "onPosition (demoInFlight\<lparr>livePos := Some (0, - (22 / 10000))\<rparr>) (0, - (23 / 10000))
     = demoInFlight\<lparr>livePos := Some (0, - (23 / 10000))\<rparr>"
proof -
  show "onPosition demoNav (0, - (2 / 1000)) = demoArmed"
    by (simp add: demoArmed_def)
  show "onPosition demoArmed (0, - (21 / 10000)) = demoArmed\<lparr>livePos := Some (0, - (21 / 10000))\<rparr>"
    by (simp add: demoArmed_eq onPosition_def positionEffect_def demoSteps advanceStep_def)
  show "onPosition (demoArmed\<lparr>livePos := Some (0, - (21 / 10000))\<rparr>) (0, - (22 / 10000))
     = demoArmed\<lparr>livePos := Some (0, - (22 / 10000))\<rparr>"
    by (simp add: demoArmed_eq onPosition_def positionEffect_def demoSteps advanceStep_def)
  show "timerFire (demoArmed\<lparr>livePos := Some (0, - (22 / 10000))\<rparr>) demoTimer
     = demoInFlight\<lparr>livePos := Some (0, - (22 / 10000))\<rparr>"
    by (simp add: demoArmed_eq demoInFlight_eq timerFire_def fetchRoute_def clearTimeout_def
        demoTimer_def demoGarage_def)
  show "onPosition (demoInFlight\<lparr>livePos := Some (0, - (22 / 10000))\<rparr>) (0, - (23 / 10000))
     = demoInFlight\<lparr>livePos := Some (0, - (23 / 10000))\<rparr>"
    by (simp add: demoInFlight_eq onPosition_def positionEffect_def demoSteps advanceStep_def)
qed

lemma demoOffRoute:
  "offRouteFix demoNav (0, - (2 / 1000))"
  "offRouteFix demoArmed (0, - (21 / 10000))"
  "offRouteFix (demoArmed\<lparr>livePos := Some (0, - (21 / 10000))\<rparr>) (0, - (22 / 10000))"
  "offRouteFix (demoInFlight\<lparr>livePos := Some (0, - (22 / 10000))\<rparr>) (0, - (23 / 10000))"
  by (simp_all add: demoNav_eq demoArmed_eq demoInFlight_eq offRouteFix_def demoSteps)

section \<open>Processing a position fix\<close>

lemma onPosition_arrival:
  assumes "navMode s = Navigating" "route s = Some r" "destDist p (garage s) < 25"
  shows "onPosition s p = (stopWatch (s\<lparr>livePos := Some p\<rparr>))\<lparr>navMode := Preview\<rparr>"
  using assms by (simp add: onPosition_def positionEffect_def)

lemma onPosition_enroute:
  assumes "navMode s = Navigating" "route s = Some r" "\<not> destDist p (garage s) < 25"
  shows "onPosition s p =
           checkReroute (routeSteps r) (stepIdx s) (rerouting s) p
             (advanceStep (routeSteps r) (stepIdx s) p (s\<lparr>livePos := Some p\<rparr>))"
  using assms by (simp add: onPosition_def positionEffect_def)

lemma checkReroute_stepIdx [simp]: "stepIdx (checkReroute sts i rr p s) = stepIdx s"
  by (simp add: checkReroute_def armReroute_def split: option.splits)

lemma stepIdx_onPosition_le:
  "stepIdx s \<le> stepIdx (onPosition s p) \<and> stepIdx (onPosition s p) \<le> stepIdx s + 1"
  by (auto simp: onPosition_def positionEffect_def advanceStep_def stopWatch_frame
      split: option.splits)

lemma onPosition_cases:
  "onPosition s p = s\<lparr>livePos := Some p\<rparr>
   \<or> (\<exists>r. route s = Some r \<and> navMode s = Navigating \<and> destDist p (garage s) < 25
        \<and> onPosition s p = (stopWatch (s\<lparr>livePos := Some p\<rparr>))\<lparr>navMode := Preview\<rparr>)
   \<or> (\<exists>r. route s = Some r \<and> navMode s = Navigating \<and> \<not> destDist p (garage s) < 25
        \<and> onPosition s p =
            checkReroute (routeSteps r) (stepIdx s) (rerouting s) p
              (advanceStep (routeSteps r) (stepIdx s) p (s\<lparr>livePos := Some p\<rparr>)))"
  by (cases "route s") (simp_all add: onPosition_def positionEffect_def)

lemma onPosition_rerouting:
  assumes "rerouting s" "timers s = []"
  shows "rerouting (onPosition s p) \<and> timers (onPosition s p) = []
       \<and> pending (onPosition s p) = pending s \<and> fetchLog (onPosition s p) = fetchLog s"
  using onPosition_cases [of s p] assms
  by (auto simp: stopWatch_frame stopWatch_quiet)

lemma offRoute_arm:
  assumes "owned s" "\<not> rerouting s" "offRouteFix s p"
  shows "rerouting (onPosition s p)
       \<and> timers (onPosition s p) = [\<lparr>handle = Suc (nextTimer s), delay = 1500, origin = p\<rparr>]
       \<and> fetchLog (onPosition s p) = fetchLog s
       \<and> garage (onPosition s p) = garage s"
proof -
  from assms(3) obtain r cur where n: "navMode s = Navigating" and r: "route s = Some r"
    and d: "\<not> destDist p (garage s) < 25"
    and c: "nth_opt (routeSteps r) (stepIdx s) = Some cur" and far: "maneuverDist p cur > 120"
    by (auto simp: offRouteFix_def split: option.splits)
  have eq: "onPosition s p =
      armReroute p (advanceStep (routeSteps r) (stepIdx s) p (s\<lparr>livePos := Some p\<rparr>))"
    using onPosition_enroute [OF n r d] assms(2) checkReroute_arm [OF c far] by simp
  from assms(1) have "clearIfTruthy (rerouteTimer s) (timers s) = []"
    by (intro clearIfTruthy_owned) (simp add: owned_def)
  then show ?thesis by (simp add: eq)
qed

lemma offRoute_keep:
  assumes "rerouting s" "offRouteFix s p"
  shows "rerouting (onPosition s p)
       \<and> timers (onPosition s p) = timers s
       \<and> fetchLog (onPosition s p) = fetchLog s
       \<and> garage (onPosition s p) = garage s"
proof -
  from assms(2) obtain r where n: "navMode s = Navigating" and r: "route s = Some r"
    and d: "\<not> destDist p (garage s) < 25"
    by (auto simp: offRouteFix_def split: option.splits)
  from onPosition_enroute [OF n r d] assms(1) show ?thesis by simp
qed

lemma offRoute_keep_all:
  "rerouting s \<Longrightarrow> offRouteFixes s ps
   \<Longrightarrow> rerouting (foldl onPosition s ps)
       \<and> timers (foldl onPosition s ps) = timers s
       \<and> fetchLog (foldl onPosition s ps) = fetchLog s
       \<and> garage (foldl onPosition s ps) = garage s"
proof (induction ps arbitrary: s)
  case Nil
  then show ?case by simp
next
  case (Cons p ps)
  from Cons.prems have f: "offRouteFix s p" and fs: "offRouteFixes (onPosition s p) ps"
    by simp_all
  from offRoute_keep [OF Cons.prems(1) f] Cons.IH [OF _ fs] show ?case by simp
qed

section \<open>Sessions in which nothing can fire\<close>

lemma stuck_handleEvent:
  assumes "rerouting s" "timers s = []" "pending s = 0" "handleEvent s e = Some s'"
  shows "rerouting s' \<and> timers s' = [] \<and> pending s' = 0 \<and> fetchLog s' = fetchLog s"
proof (cases e)
  case (Position w p)
  with assms onPosition_rerouting [of s p] show ?thesis by (auto split: if_splits)
next
  case (TimerFire h)
  with assms show ?thesis by simp
next
  case (FetchDone out)
  with assms show ?thesis by simp
next
  case Start
  with assms show ?thesis by (auto simp: startNavigation_def Let_def split: if_splits)
next
  case Stop
  with assms show ?thesis
    by (auto simp: stopNavigation_def stopWatch_frame stopWatch_quiet split: if_splits)
next
  case Recenter
  with assms show ?thesis by (auto simp: recenter_def split: if_splits)
qed

lemma stuck_run:
  "rerouting s \<Longrightarrow> timers s = [] \<Longrightarrow> pending s = 0 \<Longrightarrow> run s es = Some s'
   \<Longrightarrow> rerouting s' \<and> timers s' = [] \<and> fetchLog s' = fetchLog s"
proof (induction es arbitrary: s)
  case Nil
  then show ?case by simp
next
  case (Cons e es)
  from Cons.prems(4) obtain s1 where e: "handleEvent s e = Some s1" and r: "run s1 es = Some s'"
    by (auto split: option.splits)
  from stuck_handleEvent [OF Cons.prems(1-3) e]
  have s1: "rerouting s1" "timers s1 = []" "pending s1 = 0" "fetchLog s1 = fetchLog s"
    by simp_all
  from Cons.IH [OF s1(1-3) r] s1(4) show ?case by simp
qed

lemma quiet_handleEvent:
  assumes "watches s = []" "timers s = []" "handleEvent s e = Some s'" "e \<noteq> Start"
  shows "watches s' = [] \<and> timers s' = [] \<and> \<not> isCallback e"
proof (cases e)
  case (Position w p)
  with assms show ?thesis by simp
next
  case (TimerFire h)
  with assms show ?thesis by simp
next
  case (FetchDone out)
  with assms show ?thesis by (auto split: if_splits)
next
  case Start
  with assms show ?thesis by simp
next
  case Stop
  with assms show ?thesis
    by (auto simp: stopNavigation_def stopWatch_quiet split: if_splits)
next
  case Recenter
  with assms show ?thesis by (auto simp: recenter_def split: if_splits)
qed

lemma quiet_run:
  "watches s = [] \<Longrightarrow> timers s = [] \<Longrightarrow> Start \<notin> set es \<Longrightarrow> run s es = Some s'
   \<Longrightarrow> \<forall>e \<in> set es. \<not> isCallback e"
proof (induction es arbitrary: s)
  case Nil
  then show ?case by simp
next
  case (Cons e es)
  from Cons.prems(4) obtain s1 where e: "handleEvent s e = Some s1" and r: "run s1 es = Some s'"
    by (auto split: option.splits)
  from Cons.prems(3) have ne: "e \<noteq> Start" and nes: "Start \<notin> set es" by auto
  from quiet_handleEvent [OF Cons.prems(1,2) e ne]
  have s1: "watches s1 = []" "timers s1 = []" "\<not> isCallback e" by simp_all
  from Cons.IH [OF s1(1,2) nes r] s1(3) show ?case by simp
qed

section \<open>Arrival and step advance\<close>

text \<open>
  C1 (amended): while navigating, a fix less than 25 m from the destination does exactly
  \<open>stopWatch\<close> and \<open>setNavMode('preview')\<close>: no timeout stays armed, no watch stays
  live, the mode is \<open>Preview\<close> (the component has no arrived mode), and the step index,
  the rerouting flag, the timer ref, the request log and the route are as before,
  whatever the step index was.
\<close>

theorem arrival_returns_to_preview:
  assumes "reachable s" "navMode s = Navigating" "destDist p (garage s) < 25"
  shows "onPosition s p = (stopWatch (s\<lparr>livePos := Some p\<rparr>))\<lparr>navMode := Preview\<rparr>
       \<and> timers (onPosition s p) = []
       \<and> watches (onPosition s p) = []
       \<and> watchRef (onPosition s p) = None
       \<and> navMode (onPosition s p) = Preview
       \<and> stepIdx (onPosition s p) = stepIdx s
       \<and> rerouting (onPosition s p) = rerouting s
       \<and> rerouteTimer (onPosition s p) = rerouteTimer s
       \<and> fetchLog (onPosition s p) = fetchLog s
       \<and> route (onPosition s p) = route s"
proof -
  from assms(1) have o: "owned s" by (rule reachable_owned)
  with assms(2) obtain r where r: "route s = Some r" by (auto simp: owned_def)
  from o have o': "owned (s\<lparr>livePos := Some p\<rparr>)" by simp
  have eq: "onPosition s p = (stopWatch (s\<lparr>livePos := Some p\<rparr>))\<lparr>navMode := Preview\<rparr>"
    using assms(2) r assms(3) by (rule onPosition_arrival)
  show ?thesis
    using stopWatch_owned_timers [OF o'] stopWatch_owned_watches [OF o']
    by (simp add: eq stopWatch_frame)
qed

text \<open>
  The theorem at \<open>demoArmed\<close>, where a reroute timeout is armed and a watch is live, and
  a fix 1.11 m from the garage.
\<close>

theorem arrival_returns_to_preview_witness:
  "reachable demoArmed \<and> navMode demoArmed = Navigating
   \<and> destDist (0, 299 / 100000) (garage demoArmed) < 25
   \<and> timers demoArmed = [demoTimer]
   \<and> watches demoArmed = [0]
   \<and> timers (onPosition demoArmed (0, 299 / 100000)) = []
   \<and> watches (onPosition demoArmed (0, 299 / 100000)) = []
   \<and> navMode (onPosition demoArmed (0, 299 / 100000)) = Preview
   \<and> stepIdx (onPosition demoArmed (0, 299 / 100000)) = stepIdx demoArmed"
proof -
  have h: "navMode demoArmed = Navigating" "destDist (0, 299 / 100000) (garage demoArmed) < 25"
    by (simp_all add: demoArmed_eq)
  have k: "timers demoArmed = [demoTimer]" "watches demoArmed = [0]"
    by (simp_all add: demoArmed_eq)
  from arrival_returns_to_preview [OF reachable_demoArmed h, THEN conjunct2]
    reachable_demoArmed h k
  show ?thesis by simp
qed

text \<open>
  C1 as stated fails: after an arrival fix the mode is the preview mode, not an arrived
  mode, and it is not terminal: Start is enabled and leads back to navigating.
\<close>

theorem arrival_mode_counterexample:
  "navMode demoNav = Navigating
   \<and> destDist (0, 299 / 100000) (garage demoNav) < 25
   \<and> modeOf (navMode (onPosition demoNav (0, 299 / 100000))) = SpecPreview
   \<and> modeOf (navMode (onPosition demoNav (0, 299 / 100000))) \<noteq> SpecArrived
   \<and> map_option navMode (handleEvent (onPosition demoNav (0, 299 / 100000)) Start)
       = Some Navigating"
  by (simp add: demoNav_eq onPosition_def positionEffect_def modeOf_def stopWatch_frame
      hasInitLoc_def startNavigation_def)

text \<open>
  C2: while navigating and at least 25 m (so also: more than 25 m) from the destination,
  a fix less than 35 m from the maneuver of step \<open>stepIdx + 1\<close> raises \<open>stepIdx\<close> by
  exactly 1; and no fix, in any session, raises it by more than 1.
\<close>

theorem step_advances_by_exactly_one:
  assumes "navMode s = Navigating" "route s = Some r"
    and "25 \<le> destDist p (garage s)"
    and "nth_opt (routeSteps r) (stepIdx s + 1) = Some nextStep"
    and "maneuverDist p nextStep < 35"
  shows "stepIdx (onPosition s p) = stepIdx s + 1
       \<and> (\<forall>s' q. stepIdx (onPosition s' q) \<le> stepIdx s' + 1)"
proof -
  from assms(3) have "\<not> destDist p (garage s) < 25" by simp
  with assms(1,2) have "onPosition s p =
      checkReroute (routeSteps r) (stepIdx s) (rerouting s) p
        (advanceStep (routeSteps r) (stepIdx s) p (s\<lparr>livePos := Some p\<rparr>))"
    by (rule onPosition_enroute)
  with assms(4,5) have "stepIdx (onPosition s p) = stepIdx s + 1"
    by (simp add: advanceStep_def)
  then show ?thesis using stepIdx_onPosition_le by blast
qed

text \<open>
  The theorem at \<open>demoNav\<close> and a fix on the maneuver of step 1, which is also 11.1 m
  from the maneuver of step 2: the index goes from 0 to 1.
\<close>

theorem step_advances_by_exactly_one_witness:
  "navMode demoNav = Navigating \<and> route demoNav = Some demoRoute
   \<and> 25 \<le> destDist (0, 1 / 1000) (garage demoNav)
   \<and> nth_opt (routeSteps demoRoute) (stepIdx demoNav + 1) = Some (stepAt ''turn'' (1 / 1000))
   \<and> maneuverDist (0, 1 / 1000) (stepAt ''turn'' (1 / 1000)) < 35
   \<and> nth_opt (routeSteps demoRoute) (stepIdx demoNav + 2) = Some (stepAt ''turn'' (11 / 10000))
   \<and> maneuverDist (0, 1 / 1000) (stepAt ''turn'' (11 / 10000)) < 35
   \<and> stepIdx demoNav = 0
   \<and> stepIdx (onPosition demoNav (0, 1 / 1000)) = 1"
proof -
  have h: "navMode demoNav = Navigating" "route demoNav = Some demoRoute"
    "25 \<le> destDist (0, 1 / 1000) (garage demoNav)"
    "nth_opt (routeSteps demoRoute) (stepIdx demoNav + 1) = Some (stepAt ''turn'' (1 / 1000))"
    "maneuverDist (0, 1 / 1000) (stepAt ''turn'' (1 / 1000)) < 35"
    by (simp_all add: demoNav_eq demoSteps)
  have k: "nth_opt (routeSteps demoRoute) (stepIdx demoNav + 2) = Some (stepAt ''turn'' (11 / 10000))"
    "maneuverDist (0, 1 / 1000) (stepAt ''turn'' (11 / 10000)) < 35" "stepIdx demoNav = 0"
    by (simp_all add: demoNav_eq demoSteps numeral_2_eq_2)
  from step_advances_by_exactly_one [OF h] h k show ?thesis by simp
qed

section \<open>Rerouting\<close>

text \<open>
  C3: in a reachable session whose rerouting flag is clear, let the fixes \<open>p # ps\<close> all be
  off-route (none an arrival). The first fix sets the flag at once and arms one timeout
  \<open>t\<close> of 1500 ms that captured \<open>p\<close>; after all of them the flag is set, \<open>t\<close> is the only
  armed timeout and no request has been issued. Firing \<open>t\<close> issues one request, from \<open>p\<close>
  to the garage; further off-route fixes \<open>qs\<close>, while that request is in flight, arm
  nothing and issue nothing: one request in all.
\<close>

theorem reroute_is_debounced:
  assumes "reachable s" "\<not> rerouting s"
    and "t = \<lparr>handle = Suc (nextTimer s), delay = 1500, origin = p\<rparr>"
    and "offRouteFixes s (p # ps)"
    and "s1 = foldl onPosition s (p # ps)"
    and "offRouteFixes (timerFire s1 t) qs"
    and "s2 = foldl onPosition (timerFire s1 t) qs"
  shows "rerouting (onPosition s p)
       \<and> timers (onPosition s p) = [t]
       \<and> rerouting s1 \<and> timers s1 = [t] \<and> fetchLog s1 = fetchLog s
       \<and> handleEvent s1 (TimerFire (handle t)) = Some (timerFire s1 t)
       \<and> fetchLog (timerFire s1 t) = fetchLog s @ [(p, (lat (garage s), lng (garage s)))]
       \<and> rerouting s2 \<and> timers s2 = []
       \<and> fetchLog s2 = fetchLog s @ [(p, (lat (garage s), lng (garage s)))]"
proof -
  from assms(1) have o: "owned s" by (rule reachable_owned)
  from assms(4) have f: "offRouteFix s p" and fs: "offRouteFixes (onPosition s p) ps"
    by simp_all
  from offRoute_arm [OF o assms(2) f] assms(3)
  have a: "rerouting (onPosition s p)" "timers (onPosition s p) = [t]"
    "fetchLog (onPosition s p) = fetchLog s" "garage (onPosition s p) = garage s"
    by simp_all
  from offRoute_keep_all [OF a(1) fs] a assms(5)
  have b: "rerouting s1" "timers s1 = [t]" "fetchLog s1 = fetchLog s" "garage s1 = garage s"
    by simp_all
  have c: "handleEvent s1 (TimerFire (handle t)) = Some (timerFire s1 t)"
    by (simp add: b)
  have d: "rerouting (timerFire s1 t)" "timers (timerFire s1 t) = []"
    "fetchLog (timerFire s1 t) = fetchLog s @ [(p, (lat (garage s), lng (garage s)))]"
    using b assms(3) by (simp_all add: clearTimeout_def)
  from offRoute_keep_all [OF d(1) assms(6)] d assms(7)
  have e: "rerouting s2" "timers s2 = []"
    "fetchLog s2 = fetchLog s @ [(p, (lat (garage s), lng (garage s)))]"
    by simp_all
  from a b c d e show ?thesis by simp
qed

text \<open>
  The theorem at \<open>demoNav\<close>: three fixes 222 m, 233 m and 244 m west of the first
  maneuver, the timeout, and a fourth fix 255 m west.
\<close>

theorem reroute_is_debounced_witness:
  "reachable demoNav \<and> \<not> rerouting demoNav
   \<and> offRouteFixes demoNav [(0, - (2 / 1000)), (0, - (21 / 10000)), (0, - (22 / 10000))]
   \<and> offRouteFixes
       (timerFire
         (foldl onPosition demoNav [(0, - (2 / 1000)), (0, - (21 / 10000)), (0, - (22 / 10000))])
         demoTimer)
       [(0, - (23 / 10000))]
   \<and> timers (foldl onPosition demoNav [(0, - (2 / 1000)), (0, - (21 / 10000)), (0, - (22 / 10000))])
       = [demoTimer]
   \<and> fetchLog (foldl onPosition demoNav [(0, - (2 / 1000)), (0, - (21 / 10000)), (0, - (22 / 10000))])
       = fetchLog demoNav
   \<and> fetchLog
       (foldl onPosition
         (timerFire
           (foldl onPosition demoNav [(0, - (2 / 1000)), (0, - (21 / 10000)), (0, - (22 / 10000))])
           demoTimer)
         [(0, - (23 / 10000))])
       = fetchLog demoNav @ [((0, - (2 / 1000)), (lat (garage demoNav), lng (garage demoNav)))]"
proof -
  have h1: "\<not> rerouting demoNav"
    by (simp add: demoNav_eq)
  have h2: "demoTimer = \<lparr>handle = Suc (nextTimer demoNav), delay = 1500, origin = (0, - (2 / 1000))\<rparr>"
    by (simp add: demoTimer_def demoNav_eq)
  have w: "foldl onPosition demoNav [(0, - (2 / 1000)), (0, - (21 / 10000)), (0, - (22 / 10000))]
        = demoArmed\<lparr>livePos := Some (0, - (22 / 10000))\<rparr>"
    by (simp only: foldl_Cons foldl_Nil demoWalk)
  have h3: "offRouteFixes demoNav [(0, - (2 / 1000)), (0, - (21 / 10000)), (0, - (22 / 10000))]"
    by (simp only: offRouteFixes.simps demoWalk demoOffRoute simp_thms)
  have h4: "offRouteFixes
       (timerFire
         (foldl onPosition demoNav [(0, - (2 / 1000)), (0, - (21 / 10000)), (0, - (22 / 10000))])
         demoTimer)
       [(0, - (23 / 10000))]"
    by (simp only: w offRouteFixes.simps demoWalk demoOffRoute simp_thms)
  from reroute_is_debounced [OF reachable_demoNav h1 h2 h3 refl h4 refl]
    reachable_demoNav h1 h3 h4
  show ?thesis by blast
qed

text \<open>
  C4: a completion that carries a first route installs it, resets \<open>stepIdx\<close> to 0 and
  clears \<open>rerouting\<close>; a completion without one (no \<open>routes\<close>, an empty \<open>routes\<close>, or an
  exception) clears \<open>rerouting\<close>, sets \<open>routeError\<close> and leaves \<open>route\<close> and \<open>stepIdx\<close>
  as they were.
\<close>

theorem fetch_completion:
  "(routes d = Some (r # rs) \<longrightarrow>
      route (fetchDone s (Resolved d)) = Some r
    \<and> stepIdx (fetchDone s (Resolved d)) = 0
    \<and> \<not> rerouting (fetchDone s (Resolved d)))
   \<and> (routes d' = None \<or> routes d' = Some [] \<longrightarrow>
      \<not> rerouting (fetchDone s (Resolved d'))
    \<and> routeError (fetchDone s (Resolved d')) = Some ''No route found''
    \<and> route (fetchDone s (Resolved d')) = route s
    \<and> stepIdx (fetchDone s (Resolved d')) = stepIdx s)
   \<and> \<not> rerouting (fetchDone s Rejected)
   \<and> routeError (fetchDone s Rejected) = Some ''Could not load route''
   \<and> route (fetchDone s Rejected) = route s
   \<and> stepIdx (fetchDone s Rejected) = stepIdx s"
  by (auto simp: fetchDone_def)

text \<open>
  The theorem at \<open>demoInFlight\<close>, once with a new route and once with an empty list of
  routes.
\<close>

theorem fetch_completion_witness:
  "routes \<lparr>routes = Some [demoReroute]\<rparr> = Some (demoReroute # [])
   \<and> route (fetchDone demoInFlight (Resolved \<lparr>routes = Some [demoReroute]\<rparr>)) = Some demoReroute
   \<and> stepIdx (fetchDone demoInFlight (Resolved \<lparr>routes = Some [demoReroute]\<rparr>)) = 0
   \<and> \<not> rerouting (fetchDone demoInFlight (Resolved \<lparr>routes = Some [demoReroute]\<rparr>))
   \<and> routes \<lparr>routes = Some []\<rparr> = Some []
   \<and> \<not> rerouting (fetchDone demoInFlight (Resolved \<lparr>routes = Some []\<rparr>))
   \<and> routeError (fetchDone demoInFlight (Resolved \<lparr>routes = Some []\<rparr>)) = Some ''No route found''
   \<and> route (fetchDone demoInFlight (Resolved \<lparr>routes = Some []\<rparr>)) = route demoInFlight
   \<and> rerouting demoInFlight"
  using fetch_completion [where d = "\<lparr>routes = Some [demoReroute]\<rparr>" and r = demoReroute
      and rs = "[]" and d' = "\<lparr>routes = Some []\<rparr>" and s = demoInFlight]
  by (simp add: demoInFlight_eq)

text \<open>
  C5 as stated fails: navigation is stopped while the reroute request is in flight, the
  answer arrives afterwards, and the route of the session is replaced by it.
\<close>

theorem late_result_counterexample:
  "navMode demoInFlight = Navigating
   \<and> route demoInFlight = Some demoRoute
   \<and> demoReroute \<noteq> demoRoute
   \<and> map_option navMode (run demoInFlight [Stop]) = Some Preview
   \<and> map_option route (run demoInFlight [Stop, FetchDone (Resolved \<lparr>routes = Some [demoReroute]\<rparr>)])
       = Some (Some demoReroute)"
  by (simp add: demoInFlight_eq stopNavigation_def stopWatch_def clearIfTruthy_def
      clearTimeout_def fetchDone_def demoReroute_def demoRoute_def)

text \<open>
  C5 (amended): the completion handler makes no check of the session. A result that
  arrives after the stop is applied exactly as one that arrived before it (the two
  orders give the same session, and the completion stays deliverable), so a first route
  is installed, with \<open>stepIdx\<close> 0 and \<open>rerouting\<close> clear, in preview mode too.
\<close>

theorem late_result_is_applied:
  "fetchDone (stopNavigation s) out = stopNavigation (fetchDone s out)
   \<and> handleEvent (stopNavigation s) (FetchDone out)
       = map_option stopNavigation (handleEvent s (FetchDone out))
   \<and> (routes d = Some (r # rs) \<longrightarrow>
        route (fetchDone (stopNavigation s) (Resolved d)) = Some r
      \<and> stepIdx (fetchDone (stopNavigation s) (Resolved d)) = 0
      \<and> \<not> rerouting (fetchDone (stopNavigation s) (Resolved d))
      \<and> navMode (fetchDone (stopNavigation s) (Resolved d)) = Preview)"
proof -
  have p: "pending (stopNavigation s) = pending s"
    by (simp add: stopNavigation_def stopWatch_frame)
  have "routes d = Some (r # rs) \<Longrightarrow>
        route (stopNavigation (fetchDone s (Resolved d))) = Some r
      \<and> stepIdx (stopNavigation (fetchDone s (Resolved d))) = 0
      \<and> \<not> rerouting (stopNavigation (fetchDone s (Resolved d)))
      \<and> navMode (stopNavigation (fetchDone s (Resolved d))) = Preview"
    by (simp add: stopNavigation_def stopWatch_frame fetchDone_def)
  then show ?thesis
    by (simp add: fetchDone_stopNavigation p)
qed

text \<open>
  The theorem at \<open>demoInFlight\<close>: after the stop one request is in flight and the route
  is still the first one; its answer then replaces the route.
\<close>

theorem late_result_is_applied_witness:
  "routes \<lparr>routes = Some [demoReroute]\<rparr> = Some (demoReroute # [])
   \<and> pending (stopNavigation demoInFlight) = 1
   \<and> route (stopNavigation demoInFlight) = Some demoRoute
   \<and> route (fetchDone (stopNavigation demoInFlight) (Resolved \<lparr>routes = Some [demoReroute]\<rparr>))
       = Some demoReroute
   \<and> navMode (fetchDone (stopNavigation demoInFlight) (Resolved \<lparr>routes = Some [demoReroute]\<rparr>))
       = Preview"
proof -
  have k: "pending (stopNavigation demoInFlight) = 1"
    "route (stopNavigation demoInFlight) = Some demoRoute"
    by (simp_all add: stopNavigation_def stopWatch_frame demoInFlight_eq)
  from late_result_is_applied [where s = demoInFlight
      and out = "Resolved \<lparr>routes = Some [demoReroute]\<rparr>"
      and d = "\<lparr>routes = Some [demoReroute]\<rparr>" and r = demoReroute and rs = "[]",
      THEN conjunct2] k
  show ?thesis by simp
qed

text \<open>
  C8 as stated fails: the first route of the answer has a leg with no steps, and it is
  installed with no error.
\<close>

theorem empty_steps_counterexample:
  "routeSteps emptyRoute = []
   \<and> map_option route (handleEvent demoMounted (FetchDone (Resolved \<lparr>routes = Some [emptyRoute]\<rparr>)))
       = Some (Some emptyRoute)
   \<and> map_option routeError (handleEvent demoMounted (FetchDone (Resolved \<lparr>routes = Some [emptyRoute]\<rparr>)))
       = Some None"
  by (simp add: demoMounted_eq fetchDone_def routeSteps_def emptyRoute_def)

text \<open>
  C8 (amended): an answer with no route (no \<open>routes\<close> or an empty \<open>routes\<close>) is a
  failure: \<open>routeError\<close> is 'No route found' and \<open>route\<close> is unchanged. An answer whose
  first route has an empty step list is installed like any other, and no error is set.
\<close>

theorem zero_routes_fail_empty_steps_install:
  "(routes d = None \<or> routes d = Some [] \<longrightarrow>
      routeError (fetchDone s (Resolved d)) = Some ''No route found''
    \<and> route (fetchDone s (Resolved d)) = route s)
   \<and> (routes d' = Some (r # rs) \<and> routeSteps r = [] \<longrightarrow>
      route (fetchDone s (Resolved d')) = Some r
    \<and> routeError (fetchDone s (Resolved d')) = routeError s)"
  by (auto simp: fetchDone_def)

text \<open>
  The theorem at \<open>demoMounted\<close>, with an empty list of routes and with the route that
  has no steps.
\<close>

theorem zero_routes_fail_empty_steps_install_witness:
  "routes \<lparr>routes = Some []\<rparr> = Some []
   \<and> routeError (fetchDone demoMounted (Resolved \<lparr>routes = Some []\<rparr>)) = Some ''No route found''
   \<and> route (fetchDone demoMounted (Resolved \<lparr>routes = Some []\<rparr>)) = None
   \<and> routes \<lparr>routes = Some [emptyRoute]\<rparr> = Some (emptyRoute # [])
   \<and> routeSteps emptyRoute = []
   \<and> route (fetchDone demoMounted (Resolved \<lparr>routes = Some [emptyRoute]\<rparr>)) = Some emptyRoute
   \<and> routeError (fetchDone demoMounted (Resolved \<lparr>routes = Some [emptyRoute]\<rparr>)) = None"
  using zero_routes_fail_empty_steps_install [where d = "\<lparr>routes = Some []\<rparr>"
      and s = demoMounted and d' = "\<lparr>routes = Some [emptyRoute]\<rparr>" and r = emptyRoute
      and rs = "[]"]
  by (simp add: demoMounted_eq routeSteps_def emptyRoute_def)

text \<open>
  C10: in a reachable navigating session with a reroute timeout armed, stopping (and
  equally a fix that triggers arrival) cancels the timeout and leaves \<open>rerouting\<close> set;
  whatever events follow, \<open>rerouting\<close> stays set, no timeout is armed and no request is
  issued.
\<close>

theorem cancelled_timer_leaves_rerouting_set:
  assumes "reachable s" "navMode s = Navigating" "timers s \<noteq> []"
  shows "rerouting (stopNavigation s) \<and> timers (stopNavigation s) = []
       \<and> (\<forall>es s'. run (stopNavigation s) es = Some s' \<longrightarrow>
             rerouting s' \<and> timers s' = [] \<and> fetchLog s' = fetchLog s)
       \<and> (destDist p (garage s) < 25 \<longrightarrow>
             rerouting (onPosition s p) \<and> timers (onPosition s p) = []
           \<and> (\<forall>es s'. run (onPosition s p) es = Some s' \<longrightarrow>
                 rerouting s' \<and> timers s' = [] \<and> fetchLog s' = fetchLog s))"
proof -
  from assms(1) have o: "owned s" by (rule reachable_owned)
  with assms(3) have rr: "rerouting s" and p0: "pending s = 0" by (auto simp: owned_def)
  from o assms(2) obtain r where r: "route s = Some r" by (auto simp: owned_def)
  have a: "rerouting (stopNavigation s)" "timers (stopNavigation s) = []"
    "pending (stopNavigation s) = 0" "fetchLog (stopNavigation s) = fetchLog s"
    using rr p0 stopWatch_owned_timers [OF o] by (simp_all add: stopNavigation_def stopWatch_frame)
  have A: "\<forall>es s'. run (stopNavigation s) es = Some s' \<longrightarrow>
             rerouting s' \<and> timers s' = [] \<and> fetchLog s' = fetchLog s"
    using stuck_run [OF a(1-3)] a(4) by auto
  have B: "rerouting (onPosition s p) \<and> timers (onPosition s p) = []
           \<and> (\<forall>es s'. run (onPosition s p) es = Some s' \<longrightarrow>
                 rerouting s' \<and> timers s' = [] \<and> fetchLog s' = fetchLog s)"
    if d: "destDist p (garage s) < 25"
  proof -
    from o have o': "owned (s\<lparr>livePos := Some p\<rparr>)" by simp
    have eq: "onPosition s p = (stopWatch (s\<lparr>livePos := Some p\<rparr>))\<lparr>navMode := Preview\<rparr>"
      using assms(2) r d by (rule onPosition_arrival)
    have b: "rerouting (onPosition s p)" "timers (onPosition s p) = []"
      "pending (onPosition s p) = 0" "fetchLog (onPosition s p) = fetchLog s"
      using rr p0 stopWatch_owned_timers [OF o'] by (simp_all add: eq stopWatch_frame)
    show ?thesis using stuck_run [OF b(1-3)] b by auto
  qed
  from a A B show ?thesis by blast
qed

text \<open>
  The theorem at \<open>demoArmed\<close>: after Stop and a new Start, an off-route fix from the
  new watch is delivered and arms nothing.
\<close>

theorem cancelled_timer_leaves_rerouting_set_witness:
  "reachable demoArmed \<and> navMode demoArmed = Navigating \<and> timers demoArmed \<noteq> []
   \<and> rerouting (stopNavigation demoArmed) \<and> timers (stopNavigation demoArmed) = []
   \<and> run (stopNavigation demoArmed) [Start, Position 1 (0, - (2 / 1000))]
       = Some (onPosition (startNavigation (stopNavigation demoArmed)) (0, - (2 / 1000)))
   \<and> offRouteFix (startNavigation (stopNavigation demoArmed)) (0, - (2 / 1000))
   \<and> timers (onPosition (startNavigation (stopNavigation demoArmed)) (0, - (2 / 1000))) = []
   \<and> fetchLog (onPosition (startNavigation (stopNavigation demoArmed)) (0, - (2 / 1000)))
       = fetchLog demoArmed"
proof -
  have h: "navMode demoArmed = Navigating" "timers demoArmed \<noteq> []"
    by (simp_all add: demoArmed_eq)
  have st: "stopNavigation demoArmed =
     \<lparr>garage = demoGarage, userLat = Some 0, userLng = Some 0,
      route = Some demoRoute, routeLoading = False, routeError = None,
      navMode = Preview, livePos = Some (0, - (2 / 1000)), stepIdx = 0,
      followUser = False, rerouting = True,
      watchRef = None, rerouteTimer = Some 1,
      geolocation = True, watches = [], nextWatch = 1,
      timers = [], nextTimer = 1, pending = 0,
      fetchLog = [((0, 0), (0, 3 / 1000))]\<rparr>"
    by (simp add: demoArmed_eq stopNavigation_def stopWatch_def clearIfTruthy_def
        clearTimeout_def demoTimer_def)
  have sta: "startNavigation (stopNavigation demoArmed) =
     \<lparr>garage = demoGarage, userLat = Some 0, userLng = Some 0,
      route = Some demoRoute, routeLoading = False, routeError = None,
      navMode = Navigating, livePos = Some (0, - (2 / 1000)), stepIdx = 0,
      followUser = True, rerouting = True,
      watchRef = Some 1, rerouteTimer = Some 1,
      geolocation = True, watches = [1], nextWatch = 2,
      timers = [], nextTimer = 1, pending = 0,
      fetchLog = [((0, 0), (0, 3 / 1000))]\<rparr>"
    by (simp add: st startNavigation_def)
  have r: "run (stopNavigation demoArmed) [Start, Position 1 (0, - (2 / 1000))]
       = Some (onPosition (startNavigation (stopNavigation demoArmed)) (0, - (2 / 1000)))"
    by (simp add: sta) (simp add: st hasInitLoc_def)
  have off: "offRouteFix (startNavigation (stopNavigation demoArmed)) (0, - (2 / 1000))"
    by (simp add: sta offRouteFix_def demoSteps)
  have fl: "fetchLog (stopNavigation demoArmed) = fetchLog demoArmed"
    by (simp add: stopNavigation_def stopWatch_frame)
  from cancelled_timer_leaves_rerouting_set [OF reachable_demoArmed h, of "(0, 0)"]
  have "rerouting (stopNavigation demoArmed)" "timers (stopNavigation demoArmed) = []"
    and "\<forall>es s'. run (stopNavigation demoArmed) es = Some s' \<longrightarrow>
             rerouting s' \<and> timers s' = [] \<and> fetchLog s' = fetchLog demoArmed"
    by blast+
  with r reachable_demoArmed h off show ?thesis by blast
qed

section \<open>Stopping, and the camera\<close>

text \<open>
  C6: in a reachable navigating session Stop is enabled; after it no watch is live, no
  timeout is armed, the mode is \<open>Preview\<close> and the route is kept. No position callback
  and no timeout can be delivered in that session, nor in any run from it that does
  not start navigation again.
\<close>

theorem stop_releases_watch_and_timer:
  assumes "reachable s" "navMode s = Navigating"
  shows "handleEvent s Stop = Some (stopNavigation s)
       \<and> watches (stopNavigation s) = []
       \<and> watchRef (stopNavigation s) = None
       \<and> timers (stopNavigation s) = []
       \<and> navMode (stopNavigation s) = Preview
       \<and> route (stopNavigation s) = route s
       \<and> (\<forall>w p. handleEvent (stopNavigation s) (Position w p) = None)
       \<and> (\<forall>h. handleEvent (stopNavigation s) (TimerFire h) = None)
       \<and> (\<forall>es s'. Start \<notin> set es \<longrightarrow> run (stopNavigation s) es = Some s' \<longrightarrow>
             (\<forall>e \<in> set es. \<not> isCallback e))"
proof -
  from assms(1) have o: "owned s" by (rule reachable_owned)
  with assms(2) have r: "route s \<noteq> None" by (auto simp: owned_def)
  have a: "watches (stopNavigation s) = []" "timers (stopNavigation s) = []"
    using stopWatch_owned_timers [OF o] stopWatch_owned_watches [OF o]
    by (simp_all add: stopNavigation_def)
  have b: "handleEvent s Stop = Some (stopNavigation s)"
    using assms(2) r by simp
  have c: "watchRef (stopNavigation s) = None" "navMode (stopNavigation s) = Preview"
    "route (stopNavigation s) = route s"
    by (simp_all add: stopNavigation_def stopWatch_frame)
  have d: "\<forall>es s'. Start \<notin> set es \<longrightarrow> run (stopNavigation s) es = Some s' \<longrightarrow>
             (\<forall>e \<in> set es. \<not> isCallback e)"
    using quiet_run [OF a] by blast
  from a b c d show ?thesis by simp
qed

text \<open>
  The theorem at \<open>demoArmed\<close>, which has a live watch and an armed timeout.
\<close>

theorem stop_releases_watch_and_timer_witness:
  "reachable demoArmed \<and> navMode demoArmed = Navigating
   \<and> watches demoArmed = [0] \<and> timers demoArmed = [demoTimer]
   \<and> handleEvent demoArmed Stop = Some (stopNavigation demoArmed)
   \<and> watches (stopNavigation demoArmed) = []
   \<and> timers (stopNavigation demoArmed) = []
   \<and> route (stopNavigation demoArmed) = Some demoRoute
   \<and> handleEvent (stopNavigation demoArmed) (Position 0 (0, 0)) = None
   \<and> handleEvent (stopNavigation demoArmed) (TimerFire 1) = None"
proof -
  have h: "navMode demoArmed = Navigating" by (simp add: demoArmed_eq)
  have k: "watches demoArmed = [0]" "timers demoArmed = [demoTimer]"
    "route demoArmed = Some demoRoute"
    by (simp_all add: demoArmed_eq)
  from stop_releases_watch_and_timer [OF reachable_demoArmed h] reachable_demoArmed h k
  show ?thesis by simp
qed

text \<open>
  C7 as stated fails: no manual pan is reported (the component has no such signal), and
  Stop changes \<open>followUser\<close> from true to false.
\<close>

theorem followUser_counterexample:
  "followUser demoNav
   \<and> map_option followUser (handleEvent demoNav Stop) = Some False"
  by (simp add: demoNav_eq stopNavigation_def)

text \<open>
  C7 (amended): Start sets \<open>followUser\<close>; Stop clears it, and is the only event that
  changes it from true to false; only Start and the recenter control change it from
  false to true. Fixes, timeouts and completions never change it.
\<close>

theorem followUser_changes:
  assumes "handleEvent s e = Some s'"
  shows "(e = Start \<longrightarrow> followUser s')
       \<and> (e = Stop \<longrightarrow> \<not> followUser s')
       \<and> (followUser s \<and> \<not> followUser s' \<longrightarrow> e = Stop)
       \<and> (\<not> followUser s \<and> followUser s' \<longrightarrow> e = Start \<or> e = Recenter)"
proof (cases e)
  case (Position w p)
  with assms show ?thesis by (auto split: if_splits)
next
  case (TimerFire h)
  with assms show ?thesis by (auto split: option.splits)
next
  case (FetchDone out)
  with assms show ?thesis by (auto split: if_splits)
next
  case Start
  with assms show ?thesis by (auto split: if_splits)
next
  case Stop
  with assms show ?thesis by (auto split: if_splits)
next
  case Recenter
  with assms show ?thesis by (auto split: if_splits)
qed

text \<open>
  The theorem at \<open>demoNav\<close> with Stop, and at the stopped session with the recenter
  control and with Start.
\<close>

theorem followUser_changes_witness:
  "handleEvent demoNav Stop = Some (stopNavigation demoNav)
   \<and> followUser demoNav \<and> \<not> followUser (stopNavigation demoNav)
   \<and> handleEvent (stopNavigation demoNav) Recenter = Some (recenter (stopNavigation demoNav))
   \<and> followUser (recenter (stopNavigation demoNav))
   \<and> handleEvent (stopNavigation demoNav) Start = Some (startNavigation (stopNavigation demoNav))
   \<and> followUser (startNavigation (stopNavigation demoNav))"
proof -
  have a: "handleEvent demoNav Stop = Some (stopNavigation demoNav)"
    by (simp add: demoNav_eq)
  have b: "handleEvent (stopNavigation demoNav) Recenter = Some (recenter (stopNavigation demoNav))"
    by (simp add: userMarkerPos_def stopNavigation_def stopWatch_frame demoNav_eq)
  have c: "handleEvent (stopNavigation demoNav) Start = Some (startNavigation (stopNavigation demoNav))"
    by (simp add: hasInitLoc_def stopNavigation_def stopWatch_frame demoNav_eq)
  have d: "followUser demoNav" "followUser (recenter (stopNavigation demoNav))"
    by (simp_all add: demoNav_eq recenter_def)
  from followUser_changes [OF a] followUser_changes [OF c] a b c d
  show ?thesis by simp
qed

section \<open>The distance function\<close>

text \<open>
  C9: the distance the effect compares with 25 m (to the garage) and with 35 m and 120 m
  (to a maneuver, whose location is stored as [lng, lat]) is
  \<open>sqrt ((a.lat - b.lat)\<^sup>2 + (a.lng - b.lng)\<^sup>2) * 111000\<close>, for all real coordinates.
\<close>

theorem distances_are_planar_approximation:
  "destDist p g = distanceMeters p (lat g, lng g)
   \<and> maneuverDist p st = distanceMeters p (maneuverCoord st)"
  by (simp add: destDist_def maneuverDist_def distanceMeters_def maneuverCoord_def hypot_def
      split: prod.splits)

end
